theory Spec2Isabelle
  imports Complex_Main "HOL-Library.Multiset"
begin

section \<open>Cloud2FEM: level generation, slicing, polygons and the voxel mesher\<close>

text \<open>
  A shallow embedding of \<^verbatim>\<open>Cloud2Polygons.py\<close> and \<^verbatim>\<open>Polygons2FEM.py\<close>.
  Python floats are idealised as rationals (\<^typ>\<open>rat\<close>): every comparison and every
  arithmetic step of the source is kept, rounding is not modelled. A Python exception is
  a value \<open>Inl e\<close> of the result type.
\<close>

datatype error =
    ValueError | KeyError | IndexError | TypeError | UnboundLocalError | ZeroDivisionError

subsection \<open>The numpy operations the source calls\<close>



text \<open>
  \<^verbatim>\<open>np.arange(start, stop, step)\<close>: \<open>\<lceil>(stop - start) / step\<rceil>\<close> values
  \<^verbatim>\<open>start + i * step\<close> (none when that number is not positive); a zero step raises.
\<close>

definition arange :: "rat \<Rightarrow> rat \<Rightarrow> rat \<Rightarrow> error + rat list" where
  "arange start stop step =
     (if step = 0 then Inl ZeroDivisionError
      else Inr (map (\<lambda>i. start + of_nat i * step) [0..<nat \<lceil>(stop - start) / step\<rceil>]))"

subsection \<open>\<^verbatim>\<open>make_zcoords\<close>\<close>


subsection \<open>\<^verbatim>\<open>make_slices\<close>\<close>

type_synonym point = "rat \<times> rat \<times> rat"

definition px :: "point \<Rightarrow> rat" where "px p = fst p"
definition py :: "point \<Rightarrow> rat" where "py p = fst (snd p)"






subsection \<open>\<^verbatim>\<open>find_centroids\<close>: tracing one slice\<close>

text \<open>
  The tracer works on the \<open>(x, y)\<close> columns of a slice with the working radius
  \<^verbatim>\<open>newtol\<close> that the calibration loop produced. The calibration draws a random
  subsample, so \<^verbatim>\<open>newtol\<close> is a parameter here.
\<close>

type_synonym pt = "rat \<times> rat"

text \<open>
  \<^verbatim>\<open>dists = np.sqrt(np.square(dx) + np.square(dy))\<close> is only ever compared:
  \<^verbatim>\<open>dists <= newtol\<close> holds exactly when \<^verbatim>\<open>newtol\<close> is not negative and the squared
  distance is at most \<^verbatim>\<open>newtol\<close> squared, and the smallest distance is the smallest squared
  distance.
\<close>

definition dist2 :: "pt \<Rightarrow> pt \<Rightarrow> rat" where
  "dist2 p q = (fst p - fst q)\<^sup>2 + (snd p - snd q)\<^sup>2"

definition near :: "rat \<Rightarrow> pt \<Rightarrow> pt \<Rightarrow> bool" where
  "near newtol c p \<longleftrightarrow> 0 \<le> newtol \<and> dist2 p c \<le> newtol\<^sup>2"

text \<open>
  \<^verbatim>\<open>nearpts[:, 0].mean(), nearpts[:, 1].mean()\<close>: the mean of an empty group is NaN
  (a warning, not an exception), modelled as \<open>None\<close>.
\<close>

definition mean_pt :: "pt list \<Rightarrow> pt option" where
  "mean_pt ps =
     (if ps = [] then None
      else Some (sum_list (map fst ps) / of_nat (length ps),
                 sum_list (map snd ps) / of_nat (length ps)))"

text \<open>
  \<^verbatim>\<open>np.argmin\<close> over the distances to the last centroid: the first index of the smallest
  value; when the centroid is NaN every distance is NaN and the first index is returned.
\<close>

fun argmin_from :: "rat list \<Rightarrow> nat \<Rightarrow> nat \<Rightarrow> rat \<Rightarrow> nat" where
  "argmin_from [] i best bv = best"
| "argmin_from (d # ds) i best bv =
     (if d < bv then argmin_from ds (Suc i) i d else argmin_from ds (Suc i) best bv)"

definition argmin :: "rat list \<Rightarrow> nat" where
  "argmin ds = (case ds of [] \<Rightarrow> 0 | d # rest \<Rightarrow> argmin_from rest 1 0 d)"

definition nearestidx :: "pt option \<Rightarrow> pt list \<Rightarrow> nat" where
  "nearestidx c empsl = (case c of None \<Rightarrow> 0 | Some q \<Rightarrow> argmin (map (\<lambda>p. dist2 p q) empsl))"

text \<open>\<^verbatim>\<open>np.delete(empsl, i, 0)\<close>\<close>

definition delete_at :: "nat \<Rightarrow> 'a list \<Rightarrow> 'a list" where
  "delete_at i xs = take i xs @ drop (Suc i) xs"

text \<open>
  The first centroid:
  \<^verbatim>\<open>
  while True:
      stpnt = empsl[0]                    # IndexError when empsl is empty
      empsl = np.delete(empsl, 0, 0)
      dists = ...; nearpts = empsl[dists <= newtol]
      if nearpts.shape[0] < tolpt:
          continue
      ctrds[z] = np.array([[nearpts[:, 0].mean(), nearpts[:, 1].mean(), z]])
      empsl = empsl[dists > newtol]
      break
  \<close>
  The result carries the centroid together with the neighbour group it is the mean of,
  and the points left in \<^verbatim>\<open>empsl\<close>.
\<close>

fun first_centroid ::
  "rat \<Rightarrow> int \<Rightarrow> pt list \<Rightarrow> error + ((pt option \<times> pt list) \<times> pt list)" where
  "first_centroid newtol tolpt [] = Inl IndexError"
| "first_centroid newtol tolpt (stpnt # empsl) =
     (let nearpts = filter (near newtol stpnt) empsl in
      if int (length nearpts) < tolpt then first_centroid newtol tolpt empsl
      else Inr ((mean_pt nearpts, nearpts), filter (\<lambda>p. \<not> near newtol stpnt p) empsl))"

text \<open>
  The following centroids:
  \<^verbatim>\<open>
  while True:
      nearestidx = np.argmin(...)          # ValueError when empsl is empty
      nearest = empsl[nearestidx]
      empsl = np.delete(empsl, nearestidx, 0)
      dists = ...; nearpts = empsl[dists <= newtol]
      if nearpts.shape[0] < tolpt and empsl.shape[0] > 0:
          continue
      elif empsl.shape[0] < 1:
          break
      ctrds[z] = np.vstack((ctrds[z], np.array([nearpts[:, 0].mean(), nearpts[:, 1].mean(), z])))
      empsl = empsl[dists > newtol]
      ncs += 1
      if empsl.shape[0] < 1:
          break
  \<close>
  \<open>chain\<close> is \<^verbatim>\<open>ctrds[z]\<close>, each centroid with its neighbour group; its last entry is
  \<^verbatim>\<open>ctrds[z][ncs-1]\<close>.
\<close>

function following_centroids ::
  "rat \<Rightarrow> int \<Rightarrow> (pt option \<times> pt list) list \<Rightarrow> pt list
     \<Rightarrow> error + (pt option \<times> pt list) list" where
  "following_centroids newtol tolpt chain empsl =
     (if empsl = [] then Inl ValueError
      else
        let i = nearestidx (fst (last chain)) empsl;
            nearest = empsl ! i;
            empsl1 = delete_at i empsl;
            nearpts = filter (near newtol nearest) empsl1
        in if int (length nearpts) < tolpt \<and> 0 < length empsl1
           then following_centroids newtol tolpt chain empsl1
           else if length empsl1 < 1 then Inr chain
           else
             let chain1 = chain @ [(mean_pt nearpts, nearpts)];
                 empsl2 = filter (\<lambda>p. \<not> near newtol nearest p) empsl1
             in if length empsl2 < 1 then Inr chain1
                else following_centroids newtol tolpt chain1 empsl2)"
  by pat_completeness auto
termination
proof -
  have from_range: "argmin_from ds i best bv = best
      \<or> (i \<le> argmin_from ds i best bv \<and> argmin_from ds i best bv < i + length ds)"
    for ds i best bv
  proof (induction ds arbitrary: i best bv)
    case Nil
    show ?case by simp
  next
    case (Cons d ds)
    show ?case
      using Cons.IH[of "Suc i" i d] Cons.IH[of "Suc i" best bv] by auto
  qed
  have idx: "nearestidx c xs < length xs" if ne: "xs \<noteq> []" for c and xs :: "pt list"
  proof (cases c)
    case None
    then show ?thesis using ne by (simp add: nearestidx_def)
  next
    case (Some q)
    obtain p ps where xs: "xs = p # ps" using ne by (cases xs) auto
    show ?thesis
      using from_range[of "map (\<lambda>p. dist2 p q) ps" 1 0 "dist2 p q"] Some xs
      by (auto simp: nearestidx_def argmin_def)
  qed
  have del: "length (delete_at (nearestidx c xs) xs) < length xs"
    if ne: "xs \<noteq> []" for c and xs :: "pt list"
    using idx[OF ne, of c] by (simp add: delete_at_def)
  show ?thesis
    by (relation "measure (\<lambda>(newtol, tolpt, chain, empsl). length empsl)")
       (auto intro: del le_less_trans[OF length_filter_le del])
qed

text \<open>
  One slice of \<^verbatim>\<open>find_centroids\<close>, after the calibration: \<open>None\<close> is \<^verbatim>\<open>ctrds[z] = None\<close>
  (too few points, or the IndexError of the seeding loop, which the source catches).
  The ValueError of \<^verbatim>\<open>np.argmin\<close> on an empty array is not caught.
\<close>

definition trace_slice ::
  "rat \<Rightarrow> int \<Rightarrow> int \<Rightarrow> point list \<Rightarrow> error + (pt option \<times> pt list) list option" where
  "trace_slice newtol tolsl tolpt slice =
     (let empsl = map (\<lambda>p. (px p, py p)) slice in
      if int (length empsl) < tolsl then Inr None
      else
        case first_centroid newtol tolpt empsl of
          Inl e \<Rightarrow> Inr None
        | Inr (c, empsl1) \<Rightarrow>
            (case following_centroids newtol tolpt [c] empsl1 of
               Inl e \<Rightarrow> Inl e
             | Inr chain \<Rightarrow> Inr (Some chain)))"

subsection \<open>\<^verbatim>\<open>make_polygons\<close>\<close>

text \<open>
  The geometry library (shapely) is not part of the repository. Its operations are the
  fields of a record: \<open>Polygon\<close> builds a ring from a polyline (\<open>None\<close> is its ValueError),
  \<open>is_valid\<close> is the validity test, \<open>simplify\<close> returns a simplified copy of a geometry
  and \<open>symmetric_difference\<close> is the boolean operation.
\<close>

record ('l, 'g) shapely =
  Polygon :: "'l \<Rightarrow> 'g option"
  is_valid :: "'g \<Rightarrow> bool"
  simplify :: "'g \<Rightarrow> rat \<Rightarrow> 'g"
  symmetric_difference :: "'g \<Rightarrow> 'g \<Rightarrow> 'g"

text \<open>
  The repair loop of one polygon:
  \<^verbatim>\<open>
  while True:
      if newpgon.is_valid:
          break
      elif tolsimpl >= minwthick / 2.5 and not newpgon.is_valid:
          isvalid = 0
          invalidpolygons += [z]
          ...
          break
      else:
          tolsimpl += minwthick / 50
          newpgon.simplify(tolsimpl, preserve_topology=True)
  \<close>
  The value of \<^verbatim>\<open>newpgon.simplify(...)\<close> is not assigned: \<^verbatim>\<open>newpgon\<close> stays what it
  was. The loop does not end when the tolerance never reaches the ceiling, so its result is
  an option. It returns \<^verbatim>\<open>isvalid\<close>, \<^verbatim>\<open>tolsimpl\<close> and \<^verbatim>\<open>invalidpolygons\<close>.
\<close>

partial_function (option) repair_loop ::
  "('l, 'g) shapely \<Rightarrow> rat \<Rightarrow> rat \<Rightarrow> 'g \<Rightarrow> bool \<Rightarrow> rat \<Rightarrow> rat list
     \<Rightarrow> (bool \<times> rat \<times> rat list) option" where
  "repair_loop S minwthick z newpgon isvalid tolsimpl invalidpolygons =
     (if is_valid S newpgon then Some (isvalid, tolsimpl, invalidpolygons)
      else if minwthick / (5 / 2) \<le> tolsimpl \<and> \<not> is_valid S newpgon
           then Some (False, tolsimpl, invalidpolygons @ [z])
      else
        let tolsimpl1 = tolsimpl + minwthick / 50;
            discarded = simplify S newpgon tolsimpl1
        in repair_loop S minwthick z newpgon isvalid tolsimpl1 invalidpolygons)"






text \<open>
  A small geometry to run the builder on: a geometry is a set of unit cells, valid when it
  has at least four of them; simplifying adds four cells (and so makes every geometry
  valid); the symmetric difference is that of sets.
\<close>

definition raster_shapely :: "(nat list, nat set) shapely" where
  "raster_shapely = \<lparr> Polygon = (\<lambda>l. if length l < 3 then None else Some (set l)),
                       is_valid = (\<lambda>g. 4 \<le> card g),
                       simplify = (\<lambda>g t. g \<union> {2, 3, 4, 5}),
                       symmetric_difference = (\<lambda>a b. (a - b) \<union> (b - a)) \<rparr>"

subsection \<open>\<^verbatim>\<open>make_mesh\<close>\<close>

text \<open>A \<^verbatim>\<open>for\<close> loop whose body may raise: the first error ends the loop.\<close>

fun for_loop :: "('a \<Rightarrow> 's \<Rightarrow> error + 's) \<Rightarrow> 'a list \<Rightarrow> 's \<Rightarrow> error + 's" where
  "for_loop body [] s = Inr s"
| "for_loop body (x # xs) s =
     (case body x s of Inl e \<Rightarrow> Inl e | Inr s1 \<Rightarrow> for_loop body xs s1)"

text \<open>
  Python indexing with a possibly negative index, \<^verbatim>\<open>zcoords[z-1]\<close>: a negative index
  counts from the end. The mesher only reads at \<^verbatim>\<open>z - 1\<close> with \<^verbatim>\<open>z\<close> a valid index,
  which is always in range.
\<close>

definition py_get :: "'a list \<Rightarrow> int \<Rightarrow> 'a" where
  "py_get xs i = (if i < 0 then xs ! nat (int (length xs) + i) else xs ! nat i)"

text \<open>
  The grids:
  \<^verbatim>\<open>
  xngrid = np.arange(xmin - xeldim, xmax + 2 * xeldim, xeldim)
  xelgrid = xngrid[: -1] + xeldim / 2
  \<close>
\<close>

definition ngrid :: "rat \<Rightarrow> rat \<Rightarrow> rat \<Rightarrow> error + rat list" where
  "ngrid lo hi eldim = arange (lo - eldim) (hi + 2 * eldim) eldim"

definition elgrid :: "rat list \<Rightarrow> rat \<Rightarrow> rat list" where
  "elgrid grid eldim = map (\<lambda>v. v + eldim / 2) (butlast grid)"

text \<open>
  Rasterisation of one level:
  \<^verbatim>\<open>
  initstack = 0
  for x in range(len(xelgrid)):
      for y in range(len(yelgrid)):
          if polygs[z].contains(sg.Point(xelgrid[x], yelgrid[y])):
              if initstack != 0:
                  elemlist[z].append([x, y]); tot_elements += 1
              else:
                  elemlist[z] = [[x, y]]; initstack += 1; tot_elements += 1
  elemlist[z] = np.array(elemlist[z])
  \<close>
  \<^verbatim>\<open>polygs[z]\<close> raises KeyError when the level has no MultiPolygon and there is a cell
  to test; the last line raises KeyError when no cell of this level was stored and
  \<^verbatim>\<open>elemlist\<close> has no entry for \<^verbatim>\<open>z\<close> from an earlier, equal level.
  \<open>contains\<close> is the point-in-polygon test of the geometry library.
\<close>

definition cells_inside ::
  "('g \<Rightarrow> rat \<Rightarrow> rat \<Rightarrow> bool) \<Rightarrow> 'g \<Rightarrow> rat list \<Rightarrow> rat list \<Rightarrow> (nat \<times> nat) list" where
  "cells_inside contains pg xelgrid yelgrid =
     concat (map (\<lambda>x. concat (map (\<lambda>y.
         if contains pg (xelgrid ! x) (yelgrid ! y) then [(x, y)] else [])
       [0..<length yelgrid])) [0..<length xelgrid])"

definition raster_level ::
  "('g \<Rightarrow> rat \<Rightarrow> rat \<Rightarrow> bool) \<Rightarrow> (rat \<rightharpoonup> 'g) \<Rightarrow> rat list \<Rightarrow> rat list \<Rightarrow> rat
     \<Rightarrow> (rat \<rightharpoonup> (nat \<times> nat) list) \<times> nat \<Rightarrow> error + (rat \<rightharpoonup> (nat \<times> nat) list) \<times> nat" where
  "raster_level contains polygs xelgrid yelgrid z st =
     (case st of (elemlist, tot_elements) \<Rightarrow>
        if xelgrid = [] \<or> yelgrid = []
        then (case elemlist z of None \<Rightarrow> Inl KeyError | Some cells \<Rightarrow> Inr (elemlist, tot_elements))
        else
          case polygs z of
            None \<Rightarrow> Inl KeyError
          | Some pg \<Rightarrow>
              let cells = cells_inside contains pg xelgrid yelgrid in
              if cells = []
              then (case elemlist z of
                      None \<Rightarrow> Inl KeyError
                    | Some old \<Rightarrow> Inr (elemlist, tot_elements))
              else Inr (elemlist(z \<mapsto> cells), tot_elements + length cells))"

text \<open>
  The state of the second pass. A row of \<^verbatim>\<open>nodelist\<close> is \<open>Some (id, x, y, z)\<close>, or
  \<open>None\<close> for a row still filled with NaN. \<^verbatim>\<open>nodelist\<close> starts as the empty Python list
  and becomes an array when the first node is stored.
\<close>

type_synonym noderow = "nat \<times> rat \<times> rat \<times> rat"

record mesh_state =
  nodeID :: nat
  elID :: nat
  nodelist :: "noderow option list"
  elconnect :: "nat list list"
  ignore :: "nat list"
  zignore :: nat

definition init_state :: mesh_state where
  "init_state = \<lparr> nodeID = 1, elID = 1, nodelist = [], elconnect = [], ignore = [], zignore = 0 \<rparr>"

text \<open>The element's height: lines 118 to 121 of the source.\<close>

definition elh :: "rat list \<Rightarrow> nat \<Rightarrow> rat" where
  "elh zcoords z =
     (if z \<noteq> length zcoords - 1 then zcoords ! (z + 1) - zcoords ! z
      else zcoords ! z - py_get zcoords (int z - 1))"

text \<open>The coordinates of corner \<^verbatim>\<open>node\<close> (0 to 7) of the cell \<^verbatim>\<open>elem\<close>: \<^verbatim>\<open>tempn[1:]\<close>.\<close>

definition corner ::
  "rat list \<Rightarrow> rat list \<Rightarrow> rat \<Rightarrow> rat \<Rightarrow> nat \<times> nat \<Rightarrow> nat \<Rightarrow> rat \<times> rat \<times> rat" where
  "corner xngrid yngrid crntz h elem node =
     (if node = 0 then (xngrid ! fst elem, yngrid ! snd elem, crntz)
      else if node = 1 then (xngrid ! (fst elem + 1), yngrid ! snd elem, crntz)
      else if node = 2 then (xngrid ! (fst elem + 1), yngrid ! (snd elem + 1), crntz)
      else if node = 3 then (xngrid ! fst elem, yngrid ! (snd elem + 1), crntz)
      else if node = 4 then (xngrid ! fst elem, yngrid ! snd elem, crntz + h)
      else if node = 5 then (xngrid ! (fst elem + 1), yngrid ! snd elem, crntz + h)
      else if node = 6 then (xngrid ! (fst elem + 1), yngrid ! (snd elem + 1), crntz + h)
      else (xngrid ! fst elem, yngrid ! (snd elem + 1), crntz + h))"

text \<open>
  The lookback window \<^verbatim>\<open>nodelist[ignore[z-2]:nodeID]\<close> (for \<^verbatim>\<open>z > 2\<close>) or
  \<^verbatim>\<open>nodelist[:nodeID]\<close>, and the indices in it of the rows equal to the corner,
  \<^verbatim>\<open>nexists\<close>. A NaN row equals nothing.
\<close>

definition window :: "mesh_state \<Rightarrow> nat \<Rightarrow> noderow option list" where
  "window st z = drop (if 2 < z then ignore st ! (z - 2) else 0) (take (nodeID st) (nodelist st))"

definition nexists :: "noderow option list \<Rightarrow> rat \<times> rat \<times> rat \<Rightarrow> nat list" where
  "nexists rows c = filter (\<lambda>i. case rows ! i of None \<Rightarrow> False | Some row \<Rightarrow> snd row = c)
                      [0..<length rows]"

text \<open>
  Storing a new node, \<^verbatim>\<open>nodelist[nodeID - 1] = tempn\<close>, then
  \<^verbatim>\<open>tempel.append(nodeID); nodeID += 1; zignore += 1\<close>. An index beyond the array raises
  IndexError.
\<close>

definition store_node ::
  "mesh_state \<Rightarrow> nat list \<Rightarrow> rat \<times> rat \<times> rat \<Rightarrow> error + mesh_state \<times> nat list" where
  "store_node st tempel c =
     (if nodeID st - 1 < length (nodelist st)
      then Inr (st\<lparr> nodelist := (nodelist st)[nodeID st - 1 := Some (nodeID st, c)],
                    nodeID := nodeID st + 1, zignore := zignore st + 1 \<rparr>,
                tempel @ [nodeID st])
      else Inl IndexError)"

text \<open>
  One corner of one element: lines 157 to 202. \<^verbatim>\<open>int(tot_elements * arr_dim)\<close> with
  \<^verbatim>\<open>arr_dim = 0.5\<close> is \<open>tot_elements div 2\<close> rows of NaN. Only the branch for
  \<^verbatim>\<open>elID != 1\<close> catches the IndexError and enlarges the array.
  A row that \<^verbatim>\<open>nexists\<close> points at is never NaN, so the \<open>None\<close> case of the reused
  row cannot occur.
\<close>

definition add_node ::
  "nat \<Rightarrow> nat \<Rightarrow> rat \<times> rat \<times> rat \<Rightarrow> mesh_state \<times> nat list \<Rightarrow> error + mesh_state \<times> nat list" where
  "add_node tot_elements z c s =
     (case s of (st, tempel) \<Rightarrow>
        if elID st \<noteq> 1 then
          let rows = window st z; found = nexists rows c in
          if length found = 1
          then (case rows ! hd found of
                  Some row \<Rightarrow> Inr (st, tempel @ [fst row])
                | None \<Rightarrow> Inl ValueError)
          else
            (case store_node st tempel c of
               Inr r \<Rightarrow> Inr r
             | Inl e \<Rightarrow>
                 store_node (st\<lparr> nodelist := nodelist st @ replicate (tot_elements div 2) None \<rparr>)
                   tempel c)
        else if nodeID st = 1
          then store_node (st\<lparr> nodelist := replicate (tot_elements div 2) None \<rparr>) tempel c
          else store_node st tempel c)"

text \<open>One element: its eight corners, then \<^verbatim>\<open>z_elconnect.append(tempel); elID += 1\<close>.\<close>

definition add_element ::
  "nat \<Rightarrow> rat list \<Rightarrow> rat list \<Rightarrow> rat \<Rightarrow> rat \<Rightarrow> nat \<Rightarrow> nat \<times> nat
     \<Rightarrow> mesh_state \<times> nat list list \<Rightarrow> error + mesh_state \<times> nat list list" where
  "add_element tot_elements xngrid yngrid crntz h z elem s =
     (case s of (st, z_elconnect) \<Rightarrow>
        case for_loop (\<lambda>node. add_node tot_elements z (corner xngrid yngrid crntz h elem node))
               [0..<8] (st, [elID st]) of
          Inl e \<Rightarrow> Inl e
        | Inr (st1, tempel) \<Rightarrow> Inr (st1\<lparr> elID := elID st1 + 1 \<rparr>, z_elconnect @ [tempel]))"

text \<open>
  One level: its elements, then \<^verbatim>\<open>elconnect += z_elconnect; ignore.append(zignore)\<close>.
\<close>

definition add_level ::
  "nat \<Rightarrow> rat list \<Rightarrow> rat list \<Rightarrow> rat list \<Rightarrow> (rat \<rightharpoonup> (nat \<times> nat) list) \<Rightarrow> nat
     \<Rightarrow> mesh_state \<Rightarrow> error + mesh_state" where
  "add_level tot_elements xngrid yngrid zcoords elemlist z st =
     (let crntz = zcoords ! z; h = elh zcoords z in
      case elemlist (zcoords ! z) of
        None \<Rightarrow> Inl KeyError
      | Some elems \<Rightarrow>
          (case for_loop (add_element tot_elements xngrid yngrid crntz h z) elems (st, []) of
             Inl e \<Rightarrow> Inl e
           | Inr (st1, z_elconnect) \<Rightarrow>
               Inr (st1\<lparr> elconnect := elconnect st1 @ z_elconnect,
                         ignore := ignore st1 @ [zignore st1] \<rparr>)))"

text \<open>
  The whole mesher. The last step, \<^verbatim>\<open>nodelist[~np.isnan(nodelist[:, 0])]\<close>, keeps the
  filled rows; it raises TypeError when \<^verbatim>\<open>nodelist\<close> is still the Python list, that is
  when no node was ever stored.
\<close>

definition make_mesh ::
  "('g \<Rightarrow> rat \<Rightarrow> rat \<Rightarrow> bool) \<Rightarrow> rat \<Rightarrow> rat \<Rightarrow> rat \<Rightarrow> rat \<Rightarrow> rat \<Rightarrow> rat \<Rightarrow> rat list
     \<Rightarrow> (rat \<rightharpoonup> 'g)
     \<Rightarrow> error + (rat \<rightharpoonup> (nat \<times> nat) list) \<times> noderow list \<times> nat list list" where
  "make_mesh contains xeldim yeldim xmin ymin xmax ymax zcoords polygs =
     (case ngrid xmin xmax xeldim of
        Inl e \<Rightarrow> Inl e
      | Inr xngrid \<Rightarrow>
     (case ngrid ymin ymax yeldim of
        Inl e \<Rightarrow> Inl e
      | Inr yngrid \<Rightarrow>
     (case for_loop (raster_level contains polygs (elgrid xngrid xeldim) (elgrid yngrid yeldim))
             zcoords (Map.empty, 0) of
        Inl e \<Rightarrow> Inl e
      | Inr (elemlist, tot_elements) \<Rightarrow>
     (case for_loop (add_level tot_elements xngrid yngrid zcoords elemlist)
             [0..<length zcoords] init_state of
        Inl e \<Rightarrow> Inl e
      | Inr st \<Rightarrow>
          if nodeID st = 1 then Inl TypeError
          else Inr (elemlist, concat (map (\<lambda>r. case r of None \<Rightarrow> [] | Some row \<Rightarrow> [row])
                                       (nodelist st)),
                    elconnect st)))))"

text \<open>The two tables of a mesh, without the per-level cell lists.\<close>

definition mesh_tables ::
  "error + (rat \<rightharpoonup> (nat \<times> nat) list) \<times> noderow list \<times> nat list list
     \<Rightarrow> error + noderow list \<times> nat list list" where
  "mesh_tables r =
     (case r of Inl e \<Rightarrow> Inl e | Inr (elemlist, nodes, elems) \<Rightarrow> Inr (nodes, elems))"

section \<open>Verification\<close>

subsection \<open>Level generation\<close>













subsection \<open>Element heights\<close>



subsection \<open>Slicing\<close>









subsection \<open>Polygons\<close>




text \<open>
  The repair loop on an invalid ring: each pass adds \<open>minwthick / 50\<close> to the tolerance, so
  with a positive \<open>minwthick\<close> the ceiling is reached after finitely many passes.
\<close>

lemma ceiling_nonpos: "nat \<lceil>q::rat\<rceil> = 0 \<Longrightarrow> q \<le> 0"
  by (simp add: ceiling_le_iff)

lemma ceiling_pos: "nat \<lceil>q::rat\<rceil> = Suc n \<Longrightarrow> 0 < q \<and> nat \<lceil>q - 1\<rceil> = n"
proof -
  assume a: "nat \<lceil>q\<rceil> = Suc n"
  hence "0 < nat \<lceil>q\<rceil>" by simp
  hence "0 < \<lceil>q\<rceil>" by (simp only: zero_less_nat_eq)
  hence "0 < q" by (simp only: zero_less_ceiling)
  moreover have "\<lceil>q - 1\<rceil> = \<lceil>q\<rceil> - 1" by simp
  hence "nat \<lceil>q - 1\<rceil> = n" using a by simp
  ultimately show ?thesis by simp
qed

lemma repair_loop_steps:
  fixes minwthick :: rat
  assumes "0 < minwthick" "\<not> is_valid S g"
  shows "nat \<lceil>(minwthick / (5 / 2) - tolsimpl) / (minwthick / 50)\<rceil> = n \<Longrightarrow>
         \<exists>tol'. repair_loop S minwthick z g ok tolsimpl ivs = Some (False, tol', ivs @ [z])
              \<and> minwthick / (5 / 2) \<le> tol' \<and> tolsimpl \<le> tol'"
proof (induction n arbitrary: tolsimpl)
  case 0
  have step: "0 < minwthick / 50" using assms(1) by simp
  have "(minwthick / (5 / 2) - tolsimpl) / (minwthick / 50) \<le> 0"
    using 0 by (rule ceiling_nonpos)
  hence "minwthick / (5 / 2) - tolsimpl \<le> 0"
    using step by (simp only: divide_le_0_iff) linarith
  hence le: "minwthick / (5 / 2) \<le> tolsimpl" by simp
  show ?case
    by (subst repair_loop.simps) (use le assms(2) in simp)
next
  case (Suc n)
  let ?t = "tolsimpl + minwthick / 50"
  have step: "0 < minwthick / 50" using assms(1) by simp
  have cp: "0 < (minwthick / (5 / 2) - tolsimpl) / (minwthick / 50)
        \<and> nat \<lceil>(minwthick / (5 / 2) - tolsimpl) / (minwthick / 50) - 1\<rceil> = n"
    using Suc.prems by (rule ceiling_pos)
  hence "0 < minwthick / (5 / 2) - tolsimpl"
    using step by (simp only: zero_less_divide_iff) linarith
  hence lt: "\<not> minwthick / (5 / 2) \<le> tolsimpl" by simp
  have "(minwthick / (5 / 2) - ?t) / (minwthick / 50)
          = (minwthick / (5 / 2) - tolsimpl) / (minwthick / 50) - 1"
    using assms(1) by (simp add: field_simps)
  hence "nat \<lceil>(minwthick / (5 / 2) - ?t) / (minwthick / 50)\<rceil> = n"
    using cp by (simp only:)
  from Suc.IH[OF this] obtain tol' where
    r: "repair_loop S minwthick z g ok ?t ivs = Some (False, tol', ivs @ [z])"
    and c: "minwthick / (5 / 2) \<le> tol'" and m: "?t \<le> tol'" by blast
  have "repair_loop S minwthick z g ok tolsimpl ivs = repair_loop S minwthick z g ok ?t ivs"
    by (subst repair_loop.simps) (use lt assms(2) in \<open>simp add: Let_def\<close>)
  moreover have "tolsimpl \<le> tol'" using m step by linarith
  ultimately show ?case using r c by simp
qed

text \<open>
  C3. The code at variance with the claim: for a ring that is invalid at the start and a
  positive minimum wall thickness, the repair loop always ends by abandoning the polygon
  and reporting the level, with the tolerance at or above \<open>minwthick / 2.5\<close>, whatever
  \<open>simplify\<close> would return: the simplified ring is never looked at.
\<close>

theorem repair_loop_never_repairs:
  "0 < minwthick \<Longrightarrow> \<not> is_valid S g \<Longrightarrow>
     \<exists>tol'. repair_loop S minwthick z g True tolsimpl ivs = Some (False, tol', ivs @ [z])
          \<and> minwthick / (5 / 2) \<le> tol'"
  using repair_loop_steps[of minwthick S g tolsimpl _ z True ivs] by blast


text \<open>
  A ring of three cells is invalid and its simplification is valid, yet the loop abandons
  it and reports level 5.
\<close>

theorem repair_loop_never_repairs_witness:
  "(0::rat) < 1 \<and> \<not> is_valid raster_shapely {7, 8, 9}
   \<and> is_valid raster_shapely (simplify raster_shapely {7, 8, 9} (11 / 200))
   \<and> (\<exists>tol'. repair_loop raster_shapely 1 5 {7, 8, 9} True (7 / 200) []
                 = Some (False, tol', [5]))"
proof -
  have h1: "(0::rat) < 1" by simp
  have h2: "\<not> is_valid raster_shapely {7, 8, 9}" by (simp add: raster_shapely_def)
  have h3: "is_valid raster_shapely (simplify raster_shapely {7, 8, 9} (11 / 200))"
    by (simp add: raster_shapely_def)
  show ?thesis
    using repair_loop_never_repairs[OF h1 h2, of 5 "7 / 200" "[]"] h2 h3 by auto
qed







subsection \<open>The voxel mesher\<close>

lemma raster_level_error:
  "raster_level contains polygs xel yel z st = Inl e \<Longrightarrow> e = KeyError"
  by (cases st) (auto simp: raster_level_def Let_def split: if_splits option.splits)

lemma raster_level_other:
  "raster_level contains polygs xel yel z' (el, tot) = Inr (el', tot') \<Longrightarrow> z \<noteq> z'
     \<Longrightarrow> el' z = el z"
  by (auto simp: raster_level_def Let_def split: if_splits option.splits)

lemma cells_inside_empty:
  "\<forall>x\<in>set xel. \<forall>y\<in>set yel. \<not> contains pg x y \<Longrightarrow> cells_inside contains pg xel yel = []"
  by (simp add: cells_inside_def)

lemma raster_level_empty:
  assumes "el z = None"
    and "polygs z = None
         \<or> (\<exists>pg. polygs z = Some pg \<and> (\<forall>x\<in>set xel. \<forall>y\<in>set yel. \<not> contains pg x y))"
  shows "raster_level contains polygs xel yel z (el, tot) = Inl KeyError"
  using assms by (auto simp: raster_level_def cells_inside_empty)

lemma raster_loop_empty:
  assumes "polygs z = None
         \<or> (\<exists>pg. polygs z = Some pg \<and> (\<forall>x\<in>set xel. \<forall>y\<in>set yel. \<not> contains pg x y))"
  shows "z \<in> set zs \<Longrightarrow> el z = None
     \<Longrightarrow> for_loop (raster_level contains polygs xel yel) zs (el, tot) = Inl KeyError"
proof (induction zs arbitrary: el tot)
  case Nil
  then show ?case by simp
next
  case (Cons z' zs)
  show ?case
  proof (cases "raster_level contains polygs xel yel z' (el, tot)")
    case (Inl e)
    then show ?thesis using raster_level_error[OF Inl] by simp
  next
    case (Inr st)
    obtain el' tot' where st: "st = (el', tot')" by (cases st)
    have ne: "z \<noteq> z'"
      using raster_level_empty[where el = el and z = z and polygs = polygs and xel = xel
          and yel = yel and contains = contains and tot = tot] Cons.prems(2) assms Inr
      by auto
    hence "el' z = None" using raster_level_other[of contains polygs xel yel z' el tot el' tot' z]
      Inr st Cons.prems(2) by simp
    moreover have "z \<in> set zs" using Cons.prems(1) ne by simp
    ultimately show ?thesis using Cons.IH[of el' tot'] Inr st by simp
  qed
qed

text \<open>
  C2. The code at variance with the claim: whenever the grids can be built and some level
  either has no MultiPolygon or has one that contains no element centre, the mesher raises
  KeyError; it neither skips the level nor returns an empty mesh.
\<close>

theorem make_mesh_empty_level_raises:
  assumes "ngrid xmin xmax xeldim = Inr xngrid" and "ngrid ymin ymax yeldim = Inr yngrid"
    and "z \<in> set zcoords"
    and "polygs z = None
         \<or> (\<exists>pg. polygs z = Some pg
               \<and> (\<forall>x\<in>set (elgrid xngrid xeldim). \<forall>y\<in>set (elgrid yngrid yeldim).
                    \<not> contains pg x y))"
  shows "make_mesh contains xeldim yeldim xmin ymin xmax ymax zcoords polygs = Inl KeyError"
proof -
  have "for_loop (raster_level contains polygs (elgrid xngrid xeldim) (elgrid yngrid yeldim))
          zcoords (Map.empty, 0) = Inl KeyError"
    using raster_loop_empty[where z = z and polygs = polygs and contains = contains
        and xel = "elgrid xngrid xeldim" and yel = "elgrid yngrid yeldim" and zs = zcoords
        and el = Map.empty and tot = 0] assms(3,4)
    by simp
  then show ?thesis using assms(1,2) by (simp add: make_mesh_def)
qed

lemma ngrid_example: "ngrid 0 2 1 = Inr [- 1, 0, 1, 2, 3]"
  by (simp add: ngrid_def arange_def upt_rec)

text \<open>
  A level missing from the mapping, a level whose MultiPolygon contains no centre, and a
  run in which every level is empty.
\<close>

theorem make_mesh_empty_level_raises_witness:
  "make_mesh (\<lambda>g x y. g) 1 1 0 0 2 2 [0, 1] [0 \<mapsto> True] = Inl KeyError
   \<and> make_mesh (\<lambda>g x y. g) 1 1 0 0 2 2 [0, 1] [0 \<mapsto> True, 1 \<mapsto> False] = Inl KeyError
   \<and> make_mesh (\<lambda>g x y. g) 1 1 0 0 2 2 [0] [0 \<mapsto> False] = Inl KeyError"
proof -
  have a: "make_mesh (\<lambda>g x y. g) 1 1 0 0 2 2 [0, 1] [0 \<mapsto> True] = Inl KeyError"
    by (rule make_mesh_empty_level_raises[where z = 1, OF ngrid_example ngrid_example]) auto
  have b: "make_mesh (\<lambda>g x y. g) 1 1 0 0 2 2 [0, 1] [0 \<mapsto> True, 1 \<mapsto> False] = Inl KeyError"
    by (rule make_mesh_empty_level_raises[where z = 1, OF ngrid_example ngrid_example]) auto
  have c: "make_mesh (\<lambda>g x y. g) 1 1 0 0 2 2 [0] [0 \<mapsto> False] = Inl KeyError"
    by (rule make_mesh_empty_level_raises[where z = 0, OF ngrid_example ngrid_example]) auto
  show ?thesis using a b c by simp
qed

lemma nexists_single:
  assumes "length (nexists rows c) = 1"
  shows "\<exists>i row. nexists rows c = [i] \<and> i < length rows \<and> rows ! i = Some row \<and> snd row = c"
proof -
  obtain i where i: "nexists rows c = [i]"
    using assms by (cases "nexists rows c") auto
  hence "i \<in> set (nexists rows c)" by simp
  hence "i < length rows \<and> (case rows ! i of None \<Rightarrow> False | Some row \<Rightarrow> snd row = c)"
    unfolding nexists_def by simp
  then show ?thesis using i by (auto split: option.splits)
qed

text \<open>
  C10. After the first element, a corner reuses an earlier node only when the lookup in the
  lookback window finds exactly one row with the same coordinates: then the id of that
  row is appended and no node is stored. With no match, or with more than one, a fresh node
  with the next id is stored and appended (unless the array cannot hold it even after being
  enlarged, which raises IndexError).
\<close>

theorem add_node_reuse_only_single_match:
  assumes "elID st \<noteq> 1"
  shows "(length (nexists (window st z) c) = 1 \<longrightarrow>
            (\<exists>i row. nexists (window st z) c = [i] \<and> i < length (window st z)
                \<and> window st z ! i = Some row \<and> snd row = c
                \<and> add_node tot_elements z c (st, tempel) = Inr (st, tempel @ [fst row])))
       \<and> (length (nexists (window st z) c) \<noteq> 1 \<longrightarrow>
            (add_node tot_elements z c (st, tempel) = Inl IndexError
               \<and> length (nodelist st) + tot_elements div 2 \<le> nodeID st - 1)
          \<or> (\<exists>st'. add_node tot_elements z c (st, tempel) = Inr (st', tempel @ [nodeID st])
                \<and> nodeID st' = nodeID st + 1 \<and> zignore st' = zignore st + 1
                \<and> nodelist st' ! (nodeID st - 1) = Some (nodeID st, c)))"
proof (intro conjI impI)
  assume one: "length (nexists (window st z) c) = 1"
  from nexists_single[OF one] obtain i row where
    ir: "nexists (window st z) c = [i]" "i < length (window st z)"
        "window st z ! i = Some row" "snd row = c" by blast
  have "add_node tot_elements z c (st, tempel) = Inr (st, tempel @ [fst row])"
    using assms one ir by (simp add: add_node_def Let_def)
  then show "\<exists>i row. nexists (window st z) c = [i] \<and> i < length (window st z)
                \<and> window st z ! i = Some row \<and> snd row = c
                \<and> add_node tot_elements z c (st, tempel) = Inr (st, tempel @ [fst row])"
    using ir by blast
next
  assume many: "length (nexists (window st z) c) \<noteq> 1"
  let ?ext = "st\<lparr> nodelist := nodelist st @ replicate (tot_elements div 2) None \<rparr>"
  have an: "add_node tot_elements z c (st, tempel) =
          (case store_node st tempel c of Inr r \<Rightarrow> Inr r
           | Inl e \<Rightarrow> store_node ?ext tempel c)"
    using assms many by (simp add: add_node_def Let_def)
  show "(add_node tot_elements z c (st, tempel) = Inl IndexError
               \<and> length (nodelist st) + tot_elements div 2 \<le> nodeID st - 1)
          \<or> (\<exists>st'. add_node tot_elements z c (st, tempel) = Inr (st', tempel @ [nodeID st])
                \<and> nodeID st' = nodeID st + 1 \<and> zignore st' = zignore st + 1
                \<and> nodelist st' ! (nodeID st - 1) = Some (nodeID st, c))"
  proof (cases "nodeID st - 1 < length (nodelist st)")
    case True
    then show ?thesis unfolding an by (simp add: store_node_def)
  next
    case False
    show ?thesis
    proof (cases "nodeID st - 1 < length (nodelist st) + tot_elements div 2")
      case True
      then show ?thesis unfolding an using False by (simp add: store_node_def)
    next
      case False
      then show ?thesis unfolding an by (simp add: store_node_def)
    qed
  qed
qed

text \<open>
  One match: node 1 is reused. Two rows with the corner's coordinates: a third node with
  the same coordinates is stored. No match: a new node is stored.
\<close>

theorem add_node_reuse_only_single_match_witness:
  "add_node 4 0 (5, 6, 7)
     (\<lparr> nodeID = 3, elID = 2, nodelist = [Some (1, 5, 6, 7), Some (2, 8, 6, 7), None, None],
        elconnect = [], ignore = [], zignore = 2 \<rparr>, [2])
     = Inr (\<lparr> nodeID = 3, elID = 2, nodelist = [Some (1, 5, 6, 7), Some (2, 8, 6, 7), None, None],
              elconnect = [], ignore = [], zignore = 2 \<rparr>, [2, 1])
   \<and> (\<exists>st'. add_node 4 0 (5, 6, 7)
          (\<lparr> nodeID = 3, elID = 2, nodelist = [Some (1, 5, 6, 7), Some (2, 5, 6, 7), None, None],
             elconnect = [], ignore = [], zignore = 2 \<rparr>, [2]) = Inr (st', [2, 3])
         \<and> nodeID st' = 4 \<and> nodelist st' ! 2 = Some (3, 5, 6, 7))
   \<and> (\<exists>st'. add_node 4 0 (9, 6, 7)
          (\<lparr> nodeID = 3, elID = 2, nodelist = [Some (1, 5, 6, 7), Some (2, 5, 6, 7), None, None],
             elconnect = [], ignore = [], zignore = 2 \<rparr>, [2]) = Inr (st', [2, 3])
         \<and> nodeID st' = 4 \<and> nodelist st' ! 2 = Some (3, 9, 6, 7))"
proof -
  let ?s1 = "\<lparr> nodeID = 3, elID = 2, nodelist = [Some (1, 5::rat, 6::rat, 7::rat), Some (2, 8, 6, 7), None, None],
        elconnect = [], ignore = [], zignore = 2 \<rparr>"
  let ?s2 = "\<lparr> nodeID = 3, elID = 2, nodelist = [Some (1, 5::rat, 6::rat, 7::rat), Some (2, 5, 6, 7), None, None],
        elconnect = [], ignore = [], zignore = 2 \<rparr>"
  have e1: "elID ?s1 \<noteq> 1" and e2: "elID ?s2 \<noteq> 1" by simp_all
  have n1: "nexists (window ?s1 0) (5, 6, 7) = [0]"
    by (simp add: nexists_def window_def upt_rec)
  have n2: "nexists (window ?s2 0) (5, 6, 7) = [0, 1]"
    by (simp add: nexists_def window_def upt_rec)
  have n3: "nexists (window ?s2 0) (9, 6, 7) = []"
    by (simp add: nexists_def window_def upt_rec)
  have w1: "window ?s1 0 ! 0 = Some (1, 5, 6, 7)" by (simp add: window_def)
  have a: "add_node 4 0 (5, 6, 7) (?s1, [2]) = Inr (?s1, [2, 1])"
    using add_node_reuse_only_single_match[OF e1, of 0 "(5, 6, 7)" 4 "[2]"] n1 w1 by auto
  have b: "\<exists>st'. add_node 4 0 (5, 6, 7) (?s2, [2]) = Inr (st', [2, 3])
         \<and> nodeID st' = 4 \<and> nodelist st' ! 2 = Some (3, 5, 6, 7)"
    using add_node_reuse_only_single_match[OF e2, of 0 "(5, 6, 7)" 4 "[2]"] n2 by auto
  have c: "\<exists>st'. add_node 4 0 (9, 6, 7) (?s2, [2]) = Inr (st', [2, 3])
         \<and> nodeID st' = 4 \<and> nodelist st' ! 2 = Some (3, 9, 6, 7)"
    using add_node_reuse_only_single_match[OF e2, of 0 "(9, 6, 7)" 4 "[2]"] n3 by auto
  show ?thesis using a b c by blast
qed


text \<open>
  C1. The code at variance with the claim. A single level, a MultiPolygon that covers the
  grid of four by four cells: the height of the only level is \<open>zcoords[0] - zcoords[-1] = 0\<close>,
  so the four top corners of an element have the coordinates of its bottom corners. Nodes 1
  and 5 (and many more) have the same coordinates, and element 2 lists the nodes 11 and 12
  twice. The ids of the nodes are the dense sequence 1 to 39.
\<close>

theorem make_mesh_single_level:
  "mesh_tables (make_mesh (\<lambda>g x y. g) 1 1 0 0 2 2 [0] [0 \<mapsto> True]) =
     Inr ([(1, - 1, - 1, 0), (2, 0, - 1, 0), (3, 0, 0, 0), (4, - 1, 0, 0),
           (5, - 1, - 1, 0), (6, 0, - 1, 0), (7, 0, 0, 0), (8, - 1, 0, 0),
           (9, - 1, 0, 0), (10, 0, 0, 0), (11, 0, 1, 0), (12, - 1, 1, 0),
           (13, - 1, 0, 0), (14, 0, 0, 0), (15, 0, 2, 0), (16, - 1, 2, 0),
           (17, 0, 3, 0), (18, - 1, 3, 0), (19, 0, - 1, 0), (20, 1, - 1, 0),
           (21, 1, 0, 0), (22, 0, 0, 0), (23, 0, - 1, 0), (24, 0, 0, 0),
           (25, 0, 0, 0), (26, 1, 1, 0), (27, 0, 0, 0), (28, 1, 2, 0),
           (29, 1, 3, 0), (30, 2, - 1, 0), (31, 2, 0, 0), (32, 2, 1, 0),
           (33, 2, 2, 0), (34, 2, 3, 0), (35, 3, - 1, 0), (36, 3, 0, 0),
           (37, 3, 1, 0), (38, 3, 2, 0), (39, 3, 3, 0)],
          [[1, 1, 2, 3, 4, 5, 6, 7, 8], [2, 9, 10, 11, 12, 13, 14, 11, 12],
           [3, 12, 11, 15, 16, 12, 11, 15, 16],
           [4, 16, 15, 17, 18, 16, 15, 17, 18],
           [5, 19, 20, 21, 22, 23, 20, 21, 24],
           [6, 25, 21, 26, 11, 27, 21, 26, 11],
           [7, 11, 26, 28, 15, 11, 26, 28, 15],
           [8, 15, 28, 29, 17, 15, 28, 29, 17],
           [9, 20, 30, 31, 21, 20, 30, 31, 21],
           [10, 21, 31, 32, 26, 21, 31, 32, 26],
           [11, 26, 32, 33, 28, 26, 32, 33, 28],
           [12, 28, 33, 34, 29, 28, 33, 34, 29],
           [13, 30, 35, 36, 31, 30, 35, 36, 31],
           [14, 31, 36, 37, 32, 31, 36, 37, 32],
           [15, 32, 37, 38, 33, 32, 37, 38, 33],
           [16, 33, 38, 39, 34, 33, 38, 39, 34]])"
  by code_simp

subsection \<open>The centroid tracer\<close>

lemma mset_delete_at: "mset (delete_at i xs) \<subseteq># mset xs"
proof -
  have d: "mset (drop (Suc i) xs) \<subseteq># mset (drop i xs)"
  proof (cases "i < length xs")
    case True
    then have "drop i xs = xs ! i # drop (Suc i) xs" by (simp add: Cons_nth_drop_Suc)
    then show ?thesis by simp
  next
    case False
    then show ?thesis by simp
  qed
  have "mset (delete_at i xs) = mset (take i xs) + mset (drop (Suc i) xs)"
    by (simp add: delete_at_def)
  also have "\<dots> \<subseteq># mset (take i xs) + mset (drop i xs)"
    using d by (simp only: subset_mset.add_le_cancel_left)
  also have "mset (take i xs) + mset (drop i xs) = mset (take i xs @ drop i xs)"
    by (simp only: mset_append)
  also have "\<dots> = mset xs" by (simp only: append_take_drop_id)
  finally show ?thesis .
qed

lemma mset_filter_split: "mset (filter P xs) + mset (filter (\<lambda>x. \<not> P x) xs) = mset xs"
  by (induction xs) auto

lemma first_centroid_group:
  "first_centroid newtol tolpt empsl = Inr ((c, grp), rest) \<Longrightarrow>
     c = mean_pt grp \<and> tolpt \<le> int (length grp) \<and> mset grp + mset rest \<subseteq># mset empsl"
proof (induction empsl)
  case Nil
  then show ?case by simp
next
  case (Cons stpnt empsl)
  show ?case
  proof (cases "int (length (filter (near newtol stpnt) empsl)) < tolpt")
    case True
    then have "first_centroid newtol tolpt empsl = Inr ((c, grp), rest)"
      using Cons.prems by (simp add: Let_def)
    from Cons.IH[OF this] have "c = mean_pt grp" "tolpt \<le> int (length grp)"
      "mset grp + mset rest \<subseteq># mset empsl" by simp_all
    moreover have "mset empsl \<subseteq># mset (stpnt # empsl)" by simp
    ultimately show ?thesis using subset_mset.order_trans by blast
  next
    case False
    then have e: "grp = filter (near newtol stpnt) empsl" "c = mean_pt grp"
      "rest = filter (\<lambda>p. \<not> near newtol stpnt p) empsl"
      using Cons.prems by (auto simp: Let_def)
    have "mset grp + mset rest = mset empsl" unfolding e(1,3) by (rule mset_filter_split)
    then show ?thesis using e(2) False e(1) by simp
  qed
qed

lemma following_centroids_groups:
  "following_centroids newtol tolpt chain empsl = Inr chain' \<Longrightarrow>
     \<exists>new. chain' = chain @ new
          \<and> (\<forall>cg\<in>set new. fst cg = mean_pt (snd cg) \<and> tolpt \<le> int (length (snd cg)))
          \<and> mset (concat (map snd new)) \<subseteq># mset empsl"
proof (induction newtol tolpt chain empsl arbitrary: chain' rule: following_centroids.induct)
  case (1 newtol tolpt chain empsl)
  have ne: "empsl \<noteq> []" using "1.prems" by (auto simp: following_centroids.simps[of _ _ _ "[]"])
  define i where "i = nearestidx (fst (last chain)) empsl"
  define nearest where "nearest = empsl ! i"
  define empsl1 where "empsl1 = delete_at i empsl"
  define nearpts where "nearpts = filter (near newtol nearest) empsl1"
  define chain1 where "chain1 = chain @ [(mean_pt nearpts, nearpts)]"
  define empsl2 where "empsl2 = filter (\<lambda>p. \<not> near newtol nearest p) empsl1"
  have sub1: "mset empsl1 \<subseteq># mset empsl" unfolding empsl1_def by (rule mset_delete_at)
  have split: "mset nearpts + mset empsl2 = mset empsl1"
    unfolding nearpts_def empsl2_def by (rule mset_filter_split)
  have unfold: "following_centroids newtol tolpt chain empsl =
      (if int (length nearpts) < tolpt \<and> 0 < length empsl1
       then following_centroids newtol tolpt chain empsl1
       else if length empsl1 < 1 then Inr chain
       else if length empsl2 < 1 then Inr chain1
       else following_centroids newtol tolpt chain1 empsl2)"
    using ne
    by (subst following_centroids.simps)
       (simp add: Let_def i_def nearest_def empsl1_def nearpts_def chain1_def empsl2_def)
  show ?case
  proof (cases "int (length nearpts) < tolpt \<and> 0 < length empsl1")
    case True
    then have r: "following_centroids newtol tolpt chain empsl1 = Inr chain'"
      using "1.prems" unfold by simp
    have "\<exists>new. chain' = chain @ new
          \<and> (\<forall>cg\<in>set new. fst cg = mean_pt (snd cg) \<and> tolpt \<le> int (length (snd cg)))
          \<and> mset (concat (map snd new)) \<subseteq># mset empsl1"
      using "1.IH"(1)[OF ne i_def nearest_def empsl1_def nearpts_def _ r] True by blast
    then show ?thesis using sub1 subset_mset.order_trans by blast
  next
    case False
    note notcont = False
    show ?thesis
    proof (cases "length empsl1 < 1")
      case True
      then have "chain' = chain" using "1.prems" unfold notcont by simp
      then show ?thesis by simp
    next
      case False
      then have big: "tolpt \<le> int (length nearpts)" using notcont by simp
      have nsub: "mset nearpts \<subseteq># mset empsl"
        using split sub1 by (metis mset_subset_eq_add_left subset_mset.order_trans)
      show ?thesis
      proof (cases "length empsl2 < 1")
        case True
        then have "chain' = chain @ [(mean_pt nearpts, nearpts)]"
          using "1.prems" unfold notcont False by (simp add: chain1_def)
        then show ?thesis using big nsub by simp
      next
        case e2: False
        then have r: "following_centroids newtol tolpt chain1 empsl2 = Inr chain'"
          using "1.prems" unfold notcont False by simp
        have "\<exists>new. chain' = chain1 @ new
          \<and> (\<forall>cg\<in>set new. fst cg = mean_pt (snd cg) \<and> tolpt \<le> int (length (snd cg)))
          \<and> mset (concat (map snd new)) \<subseteq># mset empsl2"
          using "1.IH"(2)[OF ne i_def nearest_def empsl1_def nearpts_def notcont False
                            chain1_def empsl2_def e2 r] .
        then obtain new where new: "chain' = chain1 @ new"
          "\<forall>cg\<in>set new. fst cg = mean_pt (snd cg) \<and> tolpt \<le> int (length (snd cg))"
          "mset (concat (map snd new)) \<subseteq># mset empsl2" by blast
        have "mset (concat (map snd ((mean_pt nearpts, nearpts) # new)))
                = mset nearpts + mset (concat (map snd new))" by simp
        also have "\<dots> \<subseteq># mset nearpts + mset empsl2"
          using new(3) by (simp only: subset_mset.add_le_cancel_left)
        also have "\<dots> = mset empsl1" by (rule split)
        finally have "mset (concat (map snd ((mean_pt nearpts, nearpts) # new))) \<subseteq># mset empsl"
          using sub1 subset_mset.order_trans by blast
        moreover have "chain' = chain @ ((mean_pt nearpts, nearpts) # new)"
          using new(1) by (simp add: chain1_def)
        moreover have "\<forall>cg\<in>set ((mean_pt nearpts, nearpts) # new).
                         fst cg = mean_pt (snd cg) \<and> tolpt \<le> int (length (snd cg))"
          using new(2) big by simp
        ultimately show ?thesis by blast
      qed
    qed
  qed
qed


text \<open>
  C8. When the tracer emits a chain for a slice, the chain is not empty, every centroid is
  the mean of its neighbour group, a group has at least \<^verbatim>\<open>tolpt\<close> points (so with
  \<^verbatim>\<open>tolpt\<close> at least one it is not empty and the mean is a proper point), and the groups of
  all the centroids together take each point of the slice at most as often as the slice
  has it: no point of the slice contributes to two centroids. A slice with no chain
  (\<open>None\<close>) has zero centroids.
\<close>

theorem trace_slice_chain:
  assumes "trace_slice newtol tolsl tolpt slice = Inr (Some chain)"
  shows "chain \<noteq> []
       \<and> (\<forall>cg\<in>set chain. fst cg = mean_pt (snd cg) \<and> tolpt \<le> int (length (snd cg)))
       \<and> (1 \<le> tolpt \<longrightarrow>
            (\<forall>cg\<in>set chain. snd cg \<noteq> []
               \<and> fst cg = Some (sum_list (map fst (snd cg)) / of_nat (length (snd cg)),
                                sum_list (map snd (snd cg)) / of_nat (length (snd cg)))))
       \<and> mset (concat (map snd chain)) \<subseteq># mset (map (\<lambda>p. (px p, py p)) slice)"
proof -
  let ?empsl = "map (\<lambda>p. (px p, py p)) slice"
  have big: "\<not> int (length ?empsl) < tolsl"
    using assms by (auto simp: trace_slice_def Let_def)
  obtain cg empsl1 where fc0: "first_centroid newtol tolpt ?empsl = Inr (cg, empsl1)"
  proof (cases "first_centroid newtol tolpt ?empsl")
    case (Inl e)
    then have "trace_slice newtol tolsl tolpt slice = Inr None"
      using big by (simp add: trace_slice_def Let_def)
    then show ?thesis using assms by simp
  next
    case (Inr r)
    then show ?thesis using that by (cases r) auto
  qed
  obtain c grp where cg: "cg = (c, grp)" by (cases cg)
  have fc: "first_centroid newtol tolpt ?empsl = Inr ((c, grp), empsl1)"
    using fc0 cg by simp
  have ts: "trace_slice newtol tolsl tolpt slice =
      (case following_centroids newtol tolpt [(c, grp)] empsl1 of
         Inl e \<Rightarrow> Inl e | Inr chain \<Rightarrow> Inr (Some chain))"
    using big fc by (simp add: trace_slice_def Let_def)
  have fo: "following_centroids newtol tolpt [(c, grp)] empsl1 = Inr chain"
  proof (cases "following_centroids newtol tolpt [(c, grp)] empsl1")
    case (Inl e)
    then show ?thesis using ts assms by simp
  next
    case (Inr ch)
    then show ?thesis using ts assms by simp
  qed
  from first_centroid_group[OF fc] have g: "c = mean_pt grp" "tolpt \<le> int (length grp)"
    "mset grp + mset empsl1 \<subseteq># mset ?empsl" by simp_all
  from following_centroids_groups[OF fo] obtain new where new: "chain = [(c, grp)] @ new"
    "\<forall>cg\<in>set new. fst cg = mean_pt (snd cg) \<and> tolpt \<le> int (length (snd cg))"
    "mset (concat (map snd new)) \<subseteq># mset empsl1" by blast
  have ne: "chain \<noteq> []" using new(1) by simp
  have means: "\<forall>cg\<in>set chain. fst cg = mean_pt (snd cg) \<and> tolpt \<le> int (length (snd cg))"
    using new(1,2) g(1,2) by simp
  have some: "1 \<le> tolpt \<longrightarrow>
            (\<forall>cg\<in>set chain. snd cg \<noteq> []
               \<and> fst cg = Some (sum_list (map fst (snd cg)) / of_nat (length (snd cg)),
                                sum_list (map snd (snd cg)) / of_nat (length (snd cg))))"
  proof (intro impI ballI)
    fix cg assume t: "1 \<le> tolpt" and cg: "cg \<in> set chain"
    have "tolpt \<le> int (length (snd cg))" and m: "fst cg = mean_pt (snd cg)"
      using means cg by simp_all
    hence n: "snd cg \<noteq> []" using t by auto
    show "snd cg \<noteq> []
               \<and> fst cg = Some (sum_list (map fst (snd cg)) / of_nat (length (snd cg)),
                                sum_list (map snd (snd cg)) / of_nat (length (snd cg)))"
      using n m by (simp add: mean_pt_def)
  qed
  have "mset (concat (map snd chain)) = mset grp + mset (concat (map snd new))"
    using new(1) by simp
  also have "\<dots> \<subseteq># mset grp + mset empsl1"
    using new(3) by (simp only: subset_mset.add_le_cancel_left)
  finally have sub: "mset (concat (map snd chain)) \<subseteq># mset ?empsl"
    using g(3) subset_mset.order_trans by blast
  show ?thesis using ne means some sub by (intro conjI)
qed

text \<open>A slice of five points that yields two centroids.\<close>

lemma trace_example:
  "trace_slice 1 3 1 [(0, 0, 0), (0, 1 / 2, 0), (5, 5, 0), (5, 11 / 2, 0), (9, 9, 0)]
     = Inr (Some [(Some (0, 1 / 2), [(0, 1 / 2)]), (Some (5, 11 / 2), [(5, 11 / 2)])])"
  by code_simp

text \<open>
  When the first group uses up the slice, \<^verbatim>\<open>np.argmin\<close> is called on an empty array and
  its ValueError is not caught: no chain is emitted.
\<close>

lemma trace_example_raises:
  "trace_slice 1 3 1 [(0, 0, 0), (0, 1 / 2, 0), (1 / 2, 0, 0)] = Inl ValueError"
  by code_simp

text \<open>The theorem on the slice of five points.\<close>

theorem trace_slice_chain_witness:
  "trace_slice 1 3 1 [(0, 0, 0), (0, 1 / 2, 0), (5, 5, 0), (5, 11 / 2, 0), (9, 9, 0)]
     = Inr (Some [(Some (0, 1 / 2), [(0, 1 / 2)]), (Some (5, 11 / 2), [(5, 11 / 2)])])
   \<and> mset [(0, 1 / 2), (5, 11 / 2)]
        \<subseteq># mset [(0, 0), (0, 1 / 2), (5, 5), (5, 11 / 2), (9, 9 :: rat)]"
  using trace_slice_chain[OF trace_example] trace_example
  by (simp add: px_def py_def)

end
